theory Spec2Isabelle
  imports Main "HOL-Library.Sublist"
begin

section \<open>Values, exceptions and the file system\<close>

text \<open>
  The driver \<open>run.py\<close> is a sequential script over a file system, the process
  environment and three external collaborators (job resolution, the object-store client,
  the shell).  The model covers \<open>print_end_message\<close>, \<open>upload_to_s3\<close>,
  \<open>clear_target_folder\<close> and \<open>main\<close> after \<open>parse_args\<close>; the statements run at
  import time (environment set-up, creation of the client) come before \<open>main\<close> and are
  not part of it.  Paths follow \<open>posixpath\<close>.

  Exceptions are values.  \<open>Exception\<close> stands for every instance of Python's class
  \<open>Exception\<close> (with its message); the other two constructors are the exceptions
  that \<open>except Exception\<close> does not catch.
\<close>

datatype exn = Exception string | KeyboardInterrupt | BaseException string

fun is_Exception :: "exn \<Rightarrow> bool" where
  "is_Exception (Exception m) = True"
| "is_Exception KeyboardInterrupt = False"
| "is_Exception (BaseException m) = False"

fun exn_str :: "exn \<Rightarrow> string" where
  "exn_str (Exception m) = m"
| "exn_str KeyboardInterrupt = []"
| "exn_str (BaseException m) = m"

text \<open>
  A directory entry is a regular file, a directory with its named entries, or something
  for which both \<open>os.path.isfile\<close> and \<open>os.path.isdir\<close> answer False (a FIFO, a
  socket, a dangling link).
\<close>

datatype node = File | Dir "(string \<times> node) list" | Other

record sys =
  fs :: node
  cwd :: "string list"
  environ :: "string \<rightharpoonup> string"

datatype event =
    Print string
  | GetJob string "string option"
  | Upload string string string
  | Sleep int
  | Shell string

record world =
  system :: sys
  trace :: "event list"

definition print :: "string \<Rightarrow> world \<Rightarrow> world" where
  "print s w = w\<lparr>trace := trace w @ [Print s]\<rparr>"

subsection \<open>Path strings (posixpath)\<close>

definition os_path_join :: "string \<Rightarrow> string \<Rightarrow> string" where
  "os_path_join a b =
     (if b \<noteq> [] \<and> hd b = CHR ''/'' then b
      else if a = [] \<or> last a = CHR ''/'' then a @ b
      else a @ CHR ''/'' # b)"

fun split_on :: "char \<Rightarrow> string \<Rightarrow> string list" where
  "split_on d [] = [[]]"
| "split_on d (c # cs) =
     (if c = d then [] # split_on d cs
      else (case split_on d cs of [] \<Rightarrow> [[c]] | u # us \<Rightarrow> (c # u) # us))"

definition os_path_basename :: "string \<Rightarrow> string" where
  "os_path_basename p = last (split_on (CHR ''/'') p)"

definition os_path_split :: "string \<Rightarrow> string \<times> string" where
  "os_path_split p =
     (let tail = os_path_basename p;
          head = take (length p - length tail) p
      in (if head \<noteq> [] \<and> \<not> list_all (\<lambda>c. c = CHR ''/'') head
          then rev (dropWhile (\<lambda>c. c = CHR ''/'') (rev head)) else head, tail))"

text \<open>
  Resolution of a path string to the list of entry names from the root: empty and
  \<open>.\<close> components are skipped, \<open>..\<close> goes up, a relative path starts at the working
  directory.  Symbolic links are not part of the model.
\<close>

definition path_step :: "string list \<Rightarrow> string \<Rightarrow> string list" where
  "path_step acc c =
     (if c = [] \<or> c = ''.'' then acc else if c = ''..'' then butlast acc else acc @ [c])"

definition resolve :: "sys \<Rightarrow> string \<Rightarrow> string list" where
  "resolve s p =
     foldl path_step (if p \<noteq> [] \<and> hd p = CHR ''/'' then [] else cwd s)
       (split_on (CHR ''/'') p)"

subsection \<open>File-system operations\<close>

fun lookup :: "string list \<Rightarrow> node \<Rightarrow> node option" where
  "lookup [] n = Some n"
| "lookup (x # xs) (Dir es) = (case map_of es x of None \<Rightarrow> None | Some c \<Rightarrow> lookup xs c)"
| "lookup (x # xs) File = None"
| "lookup (x # xs) Other = None"

fun delete_at :: "string list \<Rightarrow> node \<Rightarrow> node" where
  "delete_at [] n = n"
| "delete_at [x] (Dir es) = Dir (filter (\<lambda>e. fst e \<noteq> x) es)"
| "delete_at (x # y # ys) (Dir es) =
     Dir (map (\<lambda>e. if fst e = x then (fst e, delete_at (y # ys) (snd e)) else e) es)"
| "delete_at (x # xs) File = File"
| "delete_at (x # xs) Other = Other"

text \<open>
  The empty path names nothing (\<open>ENOENT\<close>).  Permissions are not part of the model:
  listing fails only on a path that is not a directory, and a removal always succeeds.
\<close>

definition stat :: "sys \<Rightarrow> string \<Rightarrow> node option" where
  "stat s p = (if p = [] then None else lookup (resolve s p) (fs s))"

definition os_path_isfile :: "sys \<Rightarrow> string \<Rightarrow> bool" where
  "os_path_isfile s p = (stat s p = Some File)"

definition os_path_isdir :: "sys \<Rightarrow> string \<Rightarrow> bool" where
  "os_path_isdir s p = (case stat s p of Some (Dir es) \<Rightarrow> True | _ \<Rightarrow> False)"

definition os_path_lexists :: "sys \<Rightarrow> string \<Rightarrow> bool" where
  "os_path_lexists s p = (stat s p \<noteq> None)"

definition os_listdir :: "sys \<Rightarrow> string \<Rightarrow> exn + string list" where
  "os_listdir s p =
     (case stat s p of
        Some (Dir es) \<Rightarrow> Inr (map fst es)
      | Some File \<Rightarrow> Inl (Exception (''NotADirectoryError: '' @ p))
      | Some Other \<Rightarrow> Inl (Exception (''NotADirectoryError: '' @ p))
      | None \<Rightarrow> Inl (Exception (''FileNotFoundError: '' @ p)))"




definition os_remove :: "string \<Rightarrow> sys \<Rightarrow> sys" where
  "os_remove p s = s\<lparr>fs := delete_at (resolve s p) (fs s)\<rparr>"

definition shutil_rmtree :: "string \<Rightarrow> sys \<Rightarrow> sys" where
  "shutil_rmtree p s = s\<lparr>fs := delete_at (resolve s p) (fs s)\<rparr>"

section \<open>Formatting\<close>

definition digit_char :: "nat \<Rightarrow> char" where
  "digit_char d = char_of (48 + d)"

fun str_nat :: "nat \<Rightarrow> string" where
  "str_nat n = (if n < 10 then [digit_char n] else str_nat (n div 10) @ [digit_char (n mod 10)])"

declare str_nat.simps [simp del]

definition str_int :: "int \<Rightarrow> string" where
  "str_int i = (if i < 0 then CHR ''-'' # str_nat (nat (- i)) else str_nat (nat i))"

text \<open>An f-string field holding the result of \<open>os.environ.get\<close>: \<open>None\<close> prints as such.\<close>

definition str_opt :: "string option \<Rightarrow> string" where
  "str_opt v = (case v of None \<Rightarrow> ''None'' | Some x \<Rightarrow> x)"

section \<open>The end message\<close>

definition print_end_message :: "int \<Rightarrow> int \<Rightarrow> world \<Rightarrow> world" where
  "print_end_message jobs_completed jobs_failed w =
     (let failure_string =
            (if jobs_failed > 0
             then str_int jobs_failed @ '' failure'' @ (if jobs_failed = 1 then [] else ''s'')
             else []);
          completed_string =
            str_int jobs_completed @ '' completed job'' @ (if jobs_completed = 1 then [] else ''s'');
          w = print [] w;
          w = print ''========================================'' w;
          w = print ''Result:'' w;
          w = (if length completed_string > 0 then print ('' - '' @ completed_string) w else w);
          w = (if length failure_string > 0 then print ('' - '' @ failure_string) w else w)
      in print ''========================================'' w)"

section \<open>Pattern matching of file names (\<open>fnmatch\<close>, \<open>glob\<close>)\<close>

text \<open>
  \<open>glob.glob\<close> and \<open>fnmatch\<close> belong to the Python library.  The matcher covers the
  wildcards \<open>*\<close> and \<open>?\<close> and literal characters; bracket classes are outside the
  model, and so is a wildcard in the directory part of the path name, which is taken
  literally.  Names that start with a dot are matched only by a pattern that starts
  with a dot.
\<close>

fun fnmatch :: "string \<Rightarrow> string \<Rightarrow> bool" where
  "fnmatch [] [] = True"
| "fnmatch (c # cs) [] = False"
| "fnmatch [] (p # ps) = (p = CHR ''*'' \<and> fnmatch [] ps)"
| "fnmatch (c # cs) (p # ps) =
     (if p = CHR ''*'' then fnmatch (c # cs) ps \<or> fnmatch cs (p # ps)
      else (p = CHR ''?'' \<or> p = c) \<and> fnmatch cs ps)"

definition has_magic :: "string \<Rightarrow> bool" where
  "has_magic p = (\<exists>c \<in> set p. c = CHR ''*'' \<or> c = CHR ''?'' \<or> c = CHR ''['')"

definition ishidden :: "string \<Rightarrow> bool" where
  "ishidden p = (p \<noteq> [] \<and> hd p = CHR ''.'')"

definition glob1 :: "sys \<Rightarrow> string \<Rightarrow> string \<Rightarrow> string list" where
  "glob1 s dirname pattern =
     (let names = (case os_listdir s (if dirname = [] then ''.'' else dirname) of
                     Inl e \<Rightarrow> [] | Inr ns \<Rightarrow> ns);
          names = (if \<not> ishidden pattern then filter (\<lambda>x. \<not> ishidden x) names else names)
      in filter (\<lambda>x. fnmatch x pattern) names)"

definition glob0 :: "sys \<Rightarrow> string \<Rightarrow> string \<Rightarrow> string list" where
  "glob0 s dirname basename =
     (if basename = [] then (if os_path_isdir s dirname then [basename] else [])
      else if os_path_lexists s (os_path_join dirname basename) then [basename] else [])"

definition glob_glob :: "sys \<Rightarrow> string \<Rightarrow> string list" where
  "glob_glob s pathname =
     (let (dirname, basename) = os_path_split pathname in
      if \<not> has_magic pathname then
        (if basename \<noteq> [] then (if os_path_lexists s pathname then [pathname] else [])
         else (if os_path_isdir s dirname then [pathname] else []))
      else if dirname = [] then glob1 s [] basename
      else map (os_path_join dirname)
             (if has_magic basename then glob1 s dirname basename else glob0 s dirname basename))"

section \<open>External collaborators\<close>

text \<open>
  A job is resolved by \<open>toolkit.job.get_job\<close> and exposes \<open>run\<close>, \<open>cleanup\<close> and its
  configuration; all of that lies outside \<open>run.py\<close> and is a parameter here.  A job may
  change the file system and the environment and may raise.  Of the configuration the
  driver reads \<open>config["process"][0]["training_folder"]\<close>, \<open>config["name"]\<close> and the
  printed form of the whole mapping; a configuration has all three.  The object store
  and the shell are parameters as well: an upload, the sleep and the stop command each
  either return or raise.
\<close>

record job_config =
  config_repr :: string
  training_folder :: string
  config_name :: string

record job =
  config :: job_config
  run :: "sys \<Rightarrow> exn option \<times> sys"
  cleanup :: "sys \<Rightarrow> exn option \<times> sys"

record ext =
  get_job :: "string \<Rightarrow> string option \<Rightarrow> sys \<Rightarrow> (exn + job) \<times> sys"
  upload_file :: "string \<Rightarrow> string \<Rightarrow> string \<Rightarrow> sys \<Rightarrow> exn option"
  time_sleep :: "int \<Rightarrow> exn option"
  subprocess_run :: "string \<Rightarrow> exn option"

section \<open>The artifact uploader\<close>

fun upload_files :: "ext \<Rightarrow> string \<Rightarrow> string \<Rightarrow> string list \<Rightarrow> world \<Rightarrow> exn option \<times> world" where
  "upload_files X bucket_name object_path [] w = (None, w)"
| "upload_files X bucket_name object_path (file # files) w =
     (let w = print (''Uploading '' @ file @ '' to '' @ bucket_name @ ''/'' @ object_path) w;
          key = os_path_join object_path (os_path_basename file);
          w = w\<lparr>trace := trace w @ [Upload file bucket_name key]\<rparr>
      in case upload_file X file bucket_name key (system w) of
           Some e \<Rightarrow> (Some e, w)
         | None \<Rightarrow> upload_files X bucket_name object_path files w)"

definition upload_to_s3 :: "ext \<Rightarrow> string \<Rightarrow> string \<Rightarrow> string \<Rightarrow> world \<Rightarrow> exn option \<times> world" where
  "upload_to_s3 X folder_path bucket_name pattern w =
     (let files = glob_glob (system w) (os_path_join folder_path (CHR ''*'' # pattern));
          object_path = str_opt (environ (system w) ''USER_ID'') @ ''/''
                        @ str_opt (environ (system w) ''JOB_ID'') @ ''/lora_checkpoints'';
          w = print (''Uploading '' @ str_int (int (length files)) @ '' files to ''
                     @ bucket_name @ ''/'' @ object_path) w
      in upload_files X bucket_name object_path files w)"

section \<open>The scratch cleaner\<close>


fun clear_parts :: "string \<Rightarrow> string list \<Rightarrow> world \<Rightarrow> world" where
  "clear_parts folder_path [] w = w"
| "clear_parts folder_path (part # parts) w =
     (let p = os_path_join folder_path part in
      if os_path_isfile (system w) p then
        clear_parts folder_path parts
          ((print (''Deleting file: '' @ p) w)\<lparr>system := os_remove p (system w)\<rparr>)
      else if os_path_isdir (system w) p then
        clear_parts folder_path parts
          ((print (''Deleting folder: '' @ p) w)\<lparr>system := shutil_rmtree p (system w)\<rparr>)
      else clear_parts folder_path parts w)"

definition clear_target_folder :: "string \<Rightarrow> world \<Rightarrow> exn option \<times> world" where
  "clear_target_folder folder_path w =
     (case os_listdir (system w) folder_path of
        Inl e \<Rightarrow> (Some e, w)
      | Inr parts \<Rightarrow> (None, clear_parts folder_path parts w))"

section \<open>The driver\<close>

record args =
  config_file_list :: "string list"
  recover :: bool
  name :: "string option"
  shutdown :: bool
  shutdown_time :: int
  target_folder :: string



record tally =
  jobs_completed :: int
  jobs_failed :: int

text \<open>Lines 150 to 159: what follows \<open>jobs_completed += 1\<close> inside the \<open>try\<close>.\<close>

definition after_job :: "ext \<Rightarrow> args \<Rightarrow> string \<Rightarrow> job \<Rightarrow> world \<Rightarrow> exn option \<times> world" where
  "after_job X a config_file j w =
     (let w = print (''Job completed: '' @ config_file) w;
          w = print (''Output directory: '' @ config_repr (config j)) w
      in case environ (system w) ''SAVE_CHECKPOINT_BUCKET_NAME'' of
           None \<Rightarrow> (None, w)
         | Some bucket_name \<Rightarrow>
             (let output_folder = training_folder (config j);
                  checkpoint_dir = os_path_join output_folder (config_name (config j))
              in case upload_to_s3 X checkpoint_dir bucket_name ''.safetensors'' w of
                   (Some e, w) \<Rightarrow> (Some e, w)
                 | (None, w) \<Rightarrow>
                     clear_target_folder (target_folder a)
                       (print (''Clearing target folder: '' @ checkpoint_dir) w)))"

text \<open>Lines 144 to 159: the body of the \<open>try\<close>.\<close>

definition try_block :: "ext \<Rightarrow> args \<Rightarrow> string \<Rightarrow> tally \<Rightarrow> world \<Rightarrow> exn option \<times> tally \<times> world" where
  "try_block X a config_file t w =
     (let w = print (''Running job: '' @ config_file) w;
          w = w\<lparr>trace := trace w @ [GetJob config_file (name a)]\<rparr>
      in case get_job X config_file (name a) (system w) of
           (Inl e, s) \<Rightarrow> (Some e, t, w\<lparr>system := s\<rparr>)
         | (Inr j, s) \<Rightarrow>
             (case run j s of
                (Some e, s) \<Rightarrow> (Some e, t, w\<lparr>system := s\<rparr>)
              | (None, s) \<Rightarrow>
                  (case cleanup j s of
                     (Some e, s) \<Rightarrow> (Some e, t, w\<lparr>system := s\<rparr>)
                   | (None, s) \<Rightarrow>
                       (let t = t\<lparr>jobs_completed := jobs_completed t + 1\<rparr>
                        in case after_job X a config_file j (w\<lparr>system := s\<rparr>) of
                             (r, w) \<Rightarrow> (r, t, w)))))"

text \<open>
  Lines 143 to 166: one pass of the loop, the \<open>try\<close> with its handler.  The result is
  the exception that leaves the loop, if any.
\<close>

definition iteration :: "ext \<Rightarrow> args \<Rightarrow> string \<Rightarrow> tally \<Rightarrow> world \<Rightarrow> exn option \<times> tally \<times> world" where
  "iteration X a config_file t w =
     (case try_block X a config_file t w of
        (None, t, w) \<Rightarrow> (None, t, w)
      | (Some e, t, w) \<Rightarrow>
          if is_Exception e then
            (let w = print (''Error running job: '' @ exn_str e) w;
                 t = t\<lparr>jobs_failed := jobs_failed t + 1\<rparr>
             in if \<not> recover a
                then (Some e, t, print_end_message (jobs_completed t) (jobs_failed t) w)
                else (None, t, w))
          else (Some e, t, w))"

fun for_loop :: "ext \<Rightarrow> args \<Rightarrow> string list \<Rightarrow> tally \<Rightarrow> world \<Rightarrow> exn option \<times> tally \<times> world" where
  "for_loop X a [] t w = (None, t, w)"
| "for_loop X a (config_file # rest) t w =
     (case iteration X a config_file t w of
        (None, t, w) \<Rightarrow> for_loop X a rest t w
      | (Some e, t, w) \<Rightarrow> (Some e, t, w))"

text \<open>Lines 168 to 185.\<close>

definition auto_shutdown :: "ext \<Rightarrow> args \<Rightarrow> world \<Rightarrow> exn option \<times> world" where
  "auto_shutdown X a w =
     (if shutdown a then
        (case environ (system w) ''RUNPOD_POD_ID'' of
           Some pod_id \<Rightarrow>
             (let w = print (''Automatic shut down is configured. Shutting down in ''
                             @ str_int (shutdown_time a) @ '' seconds! Hit Control-C to cancel.'') w;
                  w = w\<lparr>trace := trace w @ [Sleep (shutdown_time a)]\<rparr>
              in case time_sleep X (shutdown_time a) of
                   Some KeyboardInterrupt \<Rightarrow> (None, print ''Automatic shut down cancelled.'' w)
                 | Some e \<Rightarrow> (Some e, w)
                 | None \<Rightarrow>
                     (let cmd = ''runpodctl stop pod '' @ pod_id;
                          w = w\<lparr>trace := trace w @ [Shell cmd]\<rparr>
                      in case subprocess_run X cmd of
                           Some KeyboardInterrupt \<Rightarrow> (None, print ''Automatic shut down cancelled.'' w)
                         | Some e \<Rightarrow> (Some e, w)
                         | None \<Rightarrow> (None, w)))
         | None \<Rightarrow>
             (None, print ''Automatic shut down was configured, but could not get environment $RUNPOD_POD_ID'' w))
      else (None, w))"

text \<open>Lines 138 to 140.\<close>

definition announce :: "args \<Rightarrow> world \<Rightarrow> world" where
  "announce a w =
     print (''Running '' @ str_int (int (length (config_file_list a))) @ '' job''
            @ (if length (config_file_list a) = 1 then [] else ''s'')) w"

definition main :: "ext \<Rightarrow> args \<Rightarrow> world \<Rightarrow> exn option \<times> tally \<times> world" where
  "main X a w =
     (if length (config_file_list a) = 0 then
        (Some (Exception ''You must provide at least one config file''),
         \<lparr>jobs_completed = 0, jobs_failed = 0\<rparr>, w)
      else
        (let t = \<lparr>jobs_completed = 0, jobs_failed = 0\<rparr>;
             w = announce a w
         in case for_loop X a (config_file_list a) t w of
              (Some e, t, w) \<Rightarrow> (Some e, t, w)
            | (None, t, w) \<Rightarrow> (case auto_shutdown X a w of (r, w) \<Rightarrow> (r, t, w))))"

section \<open>Observations on a run\<close>

text \<open>
  What a trace shows: the identifiers handed to \<open>get_job\<close>, the uploads requested of the
  object store, the shell commands issued, and the number of printed lines that start
  with a given text.
\<close>

fun attempted :: "event list \<Rightarrow> string list" where
  "attempted [] = []"
| "attempted (GetJob c n # es) = c # attempted es"
| "attempted (Print s # es) = attempted es"
| "attempted (Upload f b k # es) = attempted es"
| "attempted (Sleep n # es) = attempted es"
| "attempted (Shell c # es) = attempted es"


fun shell_commands :: "event list \<Rightarrow> string list" where
  "shell_commands [] = []"
| "shell_commands (Shell c # es) = c # shell_commands es"
| "shell_commands (Print s # es) = shell_commands es"
| "shell_commands (GetJob c n # es) = shell_commands es"
| "shell_commands (Upload f b k # es) = shell_commands es"
| "shell_commands (Sleep n # es) = shell_commands es"

fun is_line :: "string \<Rightarrow> event \<Rightarrow> bool" where
  "is_line pre (Print s) = prefix pre s"
| "is_line pre (GetJob c n) = False"
| "is_line pre (Upload f b k) = False"
| "is_line pre (Sleep n) = False"
| "is_line pre (Shell c) = False"

definition count_lines :: "string \<Rightarrow> event list \<Rightarrow> int" where
  "count_lines pre tr = int (length (filter (is_line pre) tr))"

text \<open>The events that the uploader and the cleaner (and the line announcing it) leave.\<close>

fun aux_event :: "event \<Rightarrow> bool" where
  "aux_event (Print s) =
     (prefix ''Uploading '' s \<or> prefix ''Deleting file: '' s \<or> prefix ''Deleting folder: '' s
      \<or> prefix ''Clearing target folder: '' s)"
| "aux_event (Upload f b k) = True"
| "aux_event (GetJob c n) = False"
| "aux_event (Sleep n) = False"
| "aux_event (Shell c) = False"

text \<open>
  Three points inside a pass of the loop: the world once line 144 has printed and
  \<open>get_job\<close> has been called, the world once lines 150 and 151 have printed, and the
  directory of lines 154 and 155.
\<close>

definition started :: "args \<Rightarrow> string \<Rightarrow> world \<Rightarrow> world" where
  "started a config_file w =
     (print (''Running job: '' @ config_file) w)
       \<lparr>trace := trace (print (''Running job: '' @ config_file) w) @ [GetJob config_file (name a)]\<rparr>"

definition completed_log :: "string \<Rightarrow> job \<Rightarrow> world \<Rightarrow> world" where
  "completed_log config_file j w =
     print (''Output directory: '' @ config_repr (config j)) (print (''Job completed: '' @ config_file) w)"

definition checkpoint_dir :: "job \<Rightarrow> string" where
  "checkpoint_dir j = os_path_join (training_folder (config j)) (config_name (config j))"

text \<open>
  Every pass of the loop gets through its \<open>try\<close> without an exception: resolution, run,
  cleanup and, where the bucket is configured, upload and clearing.
\<close>

fun all_succeed :: "ext \<Rightarrow> args \<Rightarrow> string list \<Rightarrow> tally \<Rightarrow> world \<Rightarrow> bool" where
  "all_succeed X a [] t w = True"
| "all_succeed X a (config_file # rest) t w =
     (case try_block X a config_file t w of
        (None, t, w) \<Rightarrow> all_succeed X a rest t w
      | (Some e, t, w) \<Rightarrow> False)"


section \<open>Example inputs\<close>



definition fs_ex :: node where
  "fs_ex = Dir [(''workspace'', Dir [(''a.txt'', File), (''sub'', Dir [(''x'', File)])]),
              (''output'', Dir [(''run1'', Dir [(''m.safetensors'', File), (''.h.safetensors'', File),
                    (''n.txt'', File)])])]"

definition w_ex :: world where
  "w_ex = \<lparr>system = \<lparr>fs = fs_ex, cwd = [],
       environ = [''SAVE_CHECKPOINT_BUCKET_NAME'' \<mapsto> ''bkt'', ''USER_ID'' \<mapsto> ''u1'', ''JOB_ID'' \<mapsto> ''j1'']\<rparr>,
     trace = []\<rparr>"

definition w_nobucket :: world where
  "w_nobucket = \<lparr>system = \<lparr>fs = fs_ex, cwd = [], environ = Map.empty\<rparr>, trace = []\<rparr>"

definition job_ex :: job where
  "job_ex = \<lparr>config = \<lparr>config_repr = ''cfg'', training_folder = ''/output'', config_name = ''run1''\<rparr>,
     run = (\<lambda>s. (None, s)), cleanup = (\<lambda>s. (None, s))\<rparr>"

definition X_ex :: ext where
  "X_ex = \<lparr>get_job = (\<lambda>c n s. if c = ''bad'' then (Inl (Exception ''boom''), s) else (Inr job_ex, s)),
          upload_file = (\<lambda>f b k s. None), time_sleep = (\<lambda>n. None), subprocess_run = (\<lambda>c. None)\<rparr>"

definition a_ex :: args where
  "a_ex = \<lparr>config_file_list = [''c1'', ''bad'', ''c2''], recover = True, name = None, shutdown = True,
     shutdown_time = 120, target_folder = ''/workspace''\<rparr>"



definition a_ok :: args where
  "a_ok = a_ex\<lparr>config_file_list := [''c1'', ''c2'']\<rparr>"

definition a_one :: args where
  "a_one = \<lparr>config_file_list = [''c1''], recover = False, name = None, shutdown = False,
     shutdown_time = 120, target_folder = ''/workspace''\<rparr>"

definition a_lost :: args where
  "a_lost = \<lparr>config_file_list = [''c1''], recover = True, name = None, shutdown = False,
     shutdown_time = 120, target_folder = ''/nowhere''\<rparr>"

section \<open>Paths and the directory tree\<close>
























section \<open>The scratch cleaner empties its folder\<close>








section \<open>What the uploader and the cleaner leave in the trace\<close>

lemma attempted_append: "attempted (xs @ ys) = attempted xs @ attempted ys"
  by (induction xs rule: attempted.induct) auto


lemma shell_commands_append: "shell_commands (xs @ ys) = shell_commands xs @ shell_commands ys"
  by (induction xs rule: shell_commands.induct) auto

lemma count_lines_append: "count_lines p (xs @ ys) = count_lines p xs + count_lines p ys"
  by (simp add: count_lines_def)

lemma aux_attempted: "list_all aux_event new \<Longrightarrow> attempted new = []"
  by (induction new rule: attempted.induct) auto

lemma aux_shell_commands: "list_all aux_event new \<Longrightarrow> shell_commands new = []"
  by (induction new rule: shell_commands.induct) auto

lemma aux_not_completed_line: "aux_event e \<Longrightarrow> \<not> is_line ''Job completed: '' e"
  by (cases e) (auto simp: prefix_def)

lemma aux_not_error_line: "aux_event e \<Longrightarrow> \<not> is_line ''Error running job: '' e"
  by (cases e) (auto simp: prefix_def)

lemma aux_not_result: "aux_event e \<Longrightarrow> e \<noteq> Print ''Result:''"
  by (cases e) (auto simp: prefix_def)

lemma aux_count_completed: "list_all aux_event new \<Longrightarrow> count_lines ''Job completed: '' new = 0"
  by (induction new) (auto simp: count_lines_def aux_not_completed_line)

lemma aux_count_error: "list_all aux_event new \<Longrightarrow> count_lines ''Error running job: '' new = 0"
  by (induction new) (auto simp: count_lines_def aux_not_error_line)

lemma upload_files_trace:
  "\<exists>new. trace (snd (upload_files X b p files w)) = trace w @ new \<and> list_all aux_event new"
proof (induction files arbitrary: w)
  case Nil
  then show ?case by simp
next
  case (Cons f0 files)
  define w1 where "w1 = (print (''Uploading '' @ f0 @ '' to '' @ b @ ''/'' @ p) w)
      \<lparr>trace := trace (print (''Uploading '' @ f0 @ '' to '' @ b @ ''/'' @ p) w)
          @ [Upload f0 b (os_path_join p (os_path_basename f0))]\<rparr>"
  have t1: "trace w1 = trace w @ [Print (''Uploading '' @ f0 @ '' to '' @ b @ ''/'' @ p),
      Upload f0 b (os_path_join p (os_path_basename f0))]"
    by (simp add: w1_def print_def)
  have step: "upload_files X b p (f0 # files) w =
      (case upload_file X f0 b (os_path_join p (os_path_basename f0)) (system w1) of
         Some e \<Rightarrow> (Some e, w1) | None \<Rightarrow> upload_files X b p files w1)"
    unfolding w1_def by (simp only: upload_files.simps Let_def)
  from Cons.IH [of w1] obtain new where
    new: "trace (snd (upload_files X b p files w1)) = trace w1 @ new" "list_all aux_event new"
    by blast
  show ?case
  proof (cases "upload_file X f0 b (os_path_join p (os_path_basename f0)) (system w1)")
    case None
    then show ?thesis
      unfolding step using new t1
      by (intro exI [of _ "[Print (''Uploading '' @ f0 @ '' to '' @ b @ ''/'' @ p),
          Upload f0 b (os_path_join p (os_path_basename f0))] @ new"]) simp
  next
    case (Some e)
    then show ?thesis
      unfolding step using t1
      by (intro exI [of _ "[Print (''Uploading '' @ f0 @ '' to '' @ b @ ''/'' @ p),
          Upload f0 b (os_path_join p (os_path_basename f0))]"]) simp
  qed
qed



lemma upload_to_s3_trace:
  "\<exists>new. trace (snd (upload_to_s3 X folder b pat w)) = trace w @ new \<and> list_all aux_event new"
proof -
  let ?files = "glob_glob (system w) (os_path_join folder (CHR ''*'' # pat))"
  let ?p = "str_opt (environ (system w) ''USER_ID'') @ ''/''
                        @ str_opt (environ (system w) ''JOB_ID'') @ ''/lora_checkpoints''"
  let ?w = "print (''Uploading '' @ str_int (int (length ?files)) @ '' files to '' @ b @ ''/'' @ ?p) w"
  obtain new where "trace (snd (upload_files X b ?p ?files ?w)) = trace ?w @ new"
    "list_all aux_event new"
    using upload_files_trace by blast
  then show ?thesis
    by (auto simp: upload_to_s3_def Let_def print_def)
qed



lemma clear_parts_aux:
  "\<exists>new. trace (clear_parts folder ns w) = trace w @ new \<and> list_all aux_event new"
proof (induction ns arbitrary: w)
  case Nil
  then show ?case by simp
next
  case (Cons x ns)
  let ?p = "os_path_join folder x"
  define wf where "wf = (print (''Deleting file: '' @ ?p) w)\<lparr>system := os_remove ?p (system w)\<rparr>"
  define wd where "wd = (print (''Deleting folder: '' @ ?p) w)\<lparr>system := shutil_rmtree ?p (system w)\<rparr>"
  have tf: "trace wf = trace w @ [Print (''Deleting file: '' @ ?p)]"
    and td: "trace wd = trace w @ [Print (''Deleting folder: '' @ ?p)]"
    by (simp_all add: wf_def wd_def print_def)
  consider (f) "clear_parts folder (x # ns) w = clear_parts folder ns wf"
    | (d) "clear_parts folder (x # ns) w = clear_parts folder ns wd"
    | (n) "clear_parts folder (x # ns) w = clear_parts folder ns w"
    unfolding wf_def wd_def
    by (cases "os_path_isfile (system w) ?p"; cases "os_path_isdir (system w) ?p")
       (simp_all only: clear_parts.simps Let_def if_True if_False)
  then show ?case
  proof cases
    case f
    from Cons.IH [of wf] obtain new where
      "trace (clear_parts folder ns wf) = trace wf @ new" "list_all aux_event new" by blast
    then show ?thesis
      unfolding f tf by (intro exI [of _ "Print (''Deleting file: '' @ ?p) # new"]) simp
  next
    case d
    from Cons.IH [of wd] obtain new where
      "trace (clear_parts folder ns wd) = trace wd @ new" "list_all aux_event new" by blast
    then show ?thesis
      unfolding d td by (intro exI [of _ "Print (''Deleting folder: '' @ ?p) # new"]) simp
  next
    case n
    then show ?thesis using Cons.IH [of w] by simp
  qed
qed

lemma clear_target_folder_aux:
  "\<exists>new. trace (snd (clear_target_folder folder w)) = trace w @ new \<and> list_all aux_event new"
  using clear_parts_aux [of folder _ w]
  by (auto simp: clear_target_folder_def split: sum.splits)


lemma after_job_cases:
  fixes X a c j w
  defines "w2 \<equiv> print (''Output directory: '' @ config_repr (config j)) (print (''Job completed: '' @ c) w)"
    and "d \<equiv> os_path_join (training_folder (config j)) (config_name (config j))"
  obtains (unset) "environ (system w) ''SAVE_CHECKPOINT_BUCKET_NAME'' = None"
      "after_job X a c j w = (None, w2)"
  | (upload_raised) b e w3 where "environ (system w) ''SAVE_CHECKPOINT_BUCKET_NAME'' = Some b"
      "upload_to_s3 X d b ''.safetensors'' w2 = (Some e, w3)"
      "after_job X a c j w = (Some e, w3)"
  | (uploaded) b w3 where "environ (system w) ''SAVE_CHECKPOINT_BUCKET_NAME'' = Some b"
      "upload_to_s3 X d b ''.safetensors'' w2 = (None, w3)"
      "after_job X a c j w =
         clear_target_folder (target_folder a) (print (''Clearing target folder: '' @ d) w3)"
proof (cases "environ (system w) ''SAVE_CHECKPOINT_BUCKET_NAME''")
  case None
  then have "after_job X a c j w = (None, w2)"
    by (simp add: after_job_def w2_def print_def)
  with None show ?thesis by (rule unset)
next
  case (Some b)
  then have env2: "environ (system w2) ''SAVE_CHECKPOINT_BUCKET_NAME'' = Some b"
    by (simp add: w2_def print_def)
  have eq: "after_job X a c j w =
     (case upload_to_s3 X d b ''.safetensors'' w2 of
        (Some e, w') \<Rightarrow> (Some e, w')
      | (None, w') \<Rightarrow> clear_target_folder (target_folder a)
            (print (''Clearing target folder: '' @ d) w'))"
    unfolding after_job_def Let_def w2_def [symmetric] d_def [symmetric] env2 by simp
  obtain r w3 where u: "upload_to_s3 X d b ''.safetensors'' w2 = (r, w3)"
    by (cases "upload_to_s3 X d b ''.safetensors'' w2")
  show ?thesis
  proof (cases r)
    case None
    with u eq Some show ?thesis by (intro uploaded [of b w3]) simp_all
  next
    case (Some e)
    with u eq \<open>environ (system w) ''SAVE_CHECKPOINT_BUCKET_NAME'' = Some b\<close>
    show ?thesis by (intro upload_raised [of b e w3]) simp_all
  qed
qed

lemma after_job_trace:
  "\<exists>new. trace (snd (after_job X a c j w)) =
      trace w @ [Print (''Job completed: '' @ c), Print (''Output directory: '' @ config_repr (config j))] @ new
    \<and> list_all aux_event new"
proof -
  let ?w2 = "print (''Output directory: '' @ config_repr (config j)) (print (''Job completed: '' @ c) w)"
  let ?d = "os_path_join (training_folder (config j)) (config_name (config j))"
  have tw: "trace ?w2 = trace w @ [Print (''Job completed: '' @ c), Print (''Output directory: '' @ config_repr (config j))]"
    by (simp add: print_def)
  show ?thesis
  proof (cases rule: after_job_cases [where X = X and a = a and c = c and j = j and w = w])
    case unset
    then show ?thesis using tw by simp
  next
    case (upload_raised b e w3)
    obtain n1 where "trace (snd (upload_to_s3 X ?d b ''.safetensors'' ?w2)) = trace ?w2 @ n1"
      "list_all aux_event n1"
      using upload_to_s3_trace by blast
    then show ?thesis
      unfolding upload_raised tw by (intro exI [of _ n1]) simp
  next
    case (uploaded b w3)
    let ?v = "print (''Clearing target folder: '' @ ?d) w3"
    obtain n1 where n1: "trace (snd (upload_to_s3 X ?d b ''.safetensors'' ?w2)) = trace ?w2 @ n1"
      "list_all aux_event n1"
      using upload_to_s3_trace by blast
    obtain n2 where n2: "trace (snd (clear_target_folder (target_folder a) ?v)) = trace ?v @ n2"
      "list_all aux_event n2"
      using clear_target_folder_aux by blast
    have tv: "trace ?v = trace w3 @ [Print (''Clearing target folder: '' @ ?d)]"
      by (simp add: print_def)
    show ?thesis
      using n1 n2 unfolding uploaded tv tw
      by (intro exI [of _ "n1 @ Print (''Clearing target folder: '' @ ?d) # n2"]) simp
  qed
qed


section \<open>One pass of the loop\<close>

lemma try_block_cases:
  fixes X a c t w
  defines "w0 \<equiv> (print (''Running job: '' @ c) w)
      \<lparr>trace := trace (print (''Running job: '' @ c) w) @ [GetJob c (name a)]\<rparr>"
  obtains (resolve_raised) e s where "get_job X c (name a) (system w) = (Inl e, s)"
      "try_block X a c t w = (Some e, t, w0\<lparr>system := s\<rparr>)"
  | (run_raised) j s1 e s where "get_job X c (name a) (system w) = (Inr j, s1)"
      "run j s1 = (Some e, s)"
      "try_block X a c t w = (Some e, t, w0\<lparr>system := s\<rparr>)"
  | (cleanup_raised) j s1 s2 e s where "get_job X c (name a) (system w) = (Inr j, s1)"
      "run j s1 = (None, s2)" "cleanup j s2 = (Some e, s)"
      "try_block X a c t w = (Some e, t, w0\<lparr>system := s\<rparr>)"
  | (completed) j s1 s2 s3 where "get_job X c (name a) (system w) = (Inr j, s1)"
      "run j s1 = (None, s2)" "cleanup j s2 = (None, s3)"
      "try_block X a c t w =
         (fst (after_job X a c j (w0\<lparr>system := s3\<rparr>)),
          t\<lparr>jobs_completed := jobs_completed t + 1\<rparr>,
          snd (after_job X a c j (w0\<lparr>system := s3\<rparr>)))"
proof -
  have s0: "system w0 = system w" by (simp add: w0_def print_def)
  obtain g s1 where g: "get_job X c (name a) (system w) = (g, s1)"
    by (cases "get_job X c (name a) (system w)")
  have eq: "try_block X a c t w =
     (case g of Inl e \<Rightarrow> (Some e, t, w0\<lparr>system := s1\<rparr>)
      | Inr j \<Rightarrow>
             (case run j s1 of
                (Some e, s) \<Rightarrow> (Some e, t, w0\<lparr>system := s\<rparr>)
              | (None, s) \<Rightarrow>
                  (case cleanup j s of
                     (Some e, s) \<Rightarrow> (Some e, t, w0\<lparr>system := s\<rparr>)
                   | (None, s) \<Rightarrow>
                       (let t = t\<lparr>jobs_completed := jobs_completed t + 1\<rparr>
                        in case after_job X a c j (w0\<lparr>system := s\<rparr>) of
                             (r, w) \<Rightarrow> (r, t, w)))))"
    unfolding try_block_def Let_def w0_def [symmetric] s0 g by simp
  show ?thesis
  proof (cases g)
    case (Inl e)
    with g eq show ?thesis by (intro resolve_raised [of e s1]) simp_all
  next
    case (Inr j)
    obtain r s2 where r: "run j s1 = (r, s2)" by (cases "run j s1")
    show ?thesis
    proof (cases r)
      case (Some e)
      with g eq Inr r show ?thesis by (intro run_raised [of j s1 e s2]) simp_all
    next
      case None
      note rn = this
      obtain q s3 where q: "cleanup j s2 = (q, s3)" by (cases "cleanup j s2")
      show ?thesis
      proof (cases q)
        case (Some e)
        with g eq Inr r rn q show ?thesis by (intro cleanup_raised [of j s1 s2 e s3]) simp_all
      next
        case None
        with g eq Inr r rn q show ?thesis
          by (intro completed [of j s1 s2 s3]) (simp_all add: Let_def split: prod.splits)
      qed
    qed
  qed
qed

lemma try_block_summary:
  assumes "try_block X a c t w = (r, t', w')"
  shows "\<exists>new. trace w' = trace w @ Print (''Running job: '' @ c) # GetJob c (name a) # new
     \<and> attempted new = [] \<and> shell_commands new = []
     \<and> count_lines ''Error running job: '' new = 0
     \<and> count_lines ''Job completed: '' new = jobs_completed t' - jobs_completed t
     \<and> jobs_failed t' = jobs_failed t
     \<and> (jobs_completed t' = jobs_completed t \<or> jobs_completed t' = jobs_completed t + 1)
     \<and> (r = None \<longrightarrow> jobs_completed t' = jobs_completed t + 1)
     \<and> Print ''Result:'' \<notin> set new"
proof -
  let ?w0 = "(print (''Running job: '' @ c) w)
      \<lparr>trace := trace (print (''Running job: '' @ c) w) @ [GetJob c (name a)]\<rparr>"
  have t0: "\<And>s. trace (?w0\<lparr>system := s\<rparr>) = trace w @ [Print (''Running job: '' @ c), GetJob c (name a)]"
    by (simp add: print_def)
  have raised: ?thesis if "try_block X a c t w = (Some e, t, ?w0\<lparr>system := s\<rparr>)" for e s
    using that assms t0 [of s] by (intro exI [of _ "[]"]) (auto simp: count_lines_def)
  show ?thesis
  proof (cases rule: try_block_cases [where X = X and a = a and c = c and t = t and w = w])
    case (resolve_raised e s)
    then show ?thesis by (intro raised)
  next
    case (run_raised j s1 e s)
    then show ?thesis by (intro raised)
  next
    case (cleanup_raised j s1 s2 e s)
    then show ?thesis by (intro raised)
  next
    case (completed j s1 s2 s3)
    let ?lines = "[Print (''Job completed: '' @ c), Print (''Output directory: '' @ config_repr (config j))]"
    obtain new where new: "trace (snd (after_job X a c j (?w0\<lparr>system := s3\<rparr>))) =
        trace (?w0\<lparr>system := s3\<rparr>) @ ?lines @ new" "list_all aux_event new"
      using after_job_trace by blast
    have w': "trace w' = trace w @ Print (''Running job: '' @ c) # GetJob c (name a) # (?lines @ new)"
      and t': "t' = t\<lparr>jobs_completed := jobs_completed t + 1\<rparr>"
      using completed(4) assms new(1) unfolding t0 by simp_all
    have "count_lines ''Job completed: '' ?lines = 1" "count_lines ''Error running job: '' ?lines = 0"
      by (simp_all add: count_lines_def)
    then have "count_lines ''Job completed: '' (?lines @ new) = 1"
      "count_lines ''Error running job: '' (?lines @ new) = 0"
      using aux_count_completed [OF new(2)] aux_count_error [OF new(2)]
      by (simp_all only: count_lines_append)
    moreover have "Print ''Result:'' \<notin> set (?lines @ new)"
      using new(2) by (auto simp: list_all_iff dest: aux_not_result)
    moreover have "attempted (?lines @ new) = []" "shell_commands (?lines @ new) = []"
      using new(2) by (simp_all add: aux_attempted aux_shell_commands)
    ultimately show ?thesis
      using w' t' by (intro exI [of _ "?lines @ new"]) simp
  qed
qed

lemma print_end_message_trace:
  "trace (print_end_message k f w) = trace w @
     [Print [], Print ''========================================'', Print ''Result:'',
      Print ('' - '' @ str_int k @ '' completed job'' @ (if k = 1 then [] else ''s''))]
     @ (if f > 0 then [Print ('' - '' @ str_int f @ '' failure'' @ (if f = 1 then [] else ''s''))] else [])
     @ [Print ''========================================'']"
  by (simp add: print_end_message_def Let_def print_def)

lemma print_end_message_system: "system (print_end_message k f w) = system w"
  by (simp add: print_end_message_def Let_def print_def)

lemma print_end_message_quiet:
  "\<exists>msg. trace (print_end_message k f w) = trace w @ msg
     \<and> attempted msg = [] \<and> shell_commands msg = []
     \<and> count_lines ''Error running job: '' msg = 0 \<and> count_lines ''Job completed: '' msg = 0"
  unfolding print_end_message_trace
  by (rule exI, rule conjI, rule refl) (simp add: count_lines_def)

lemma iteration_cases:
  assumes tb: "try_block X a c t w = (r, t1, w1)"
  obtains (passed) "r = None" "iteration X a c t w = (None, t1, w1)"
  | (reraised) e where "r = Some e" "is_Exception e" "\<not> recover a"
      "iteration X a c t w =
        (Some e, t1\<lparr>jobs_failed := jobs_failed t1 + 1\<rparr>,
         print_end_message (jobs_completed t1) (jobs_failed t1 + 1)
           (print (''Error running job: '' @ exn_str e) w1))"
  | (absorbed) e where "r = Some e" "is_Exception e" "recover a"
      "iteration X a c t w =
        (None, t1\<lparr>jobs_failed := jobs_failed t1 + 1\<rparr>,
         print (''Error running job: '' @ exn_str e) w1)"
  | (escaped) e where "r = Some e" "\<not> is_Exception e"
      "iteration X a c t w = (Some e, t1, w1)"
proof (cases r)
  case None
  with tb show ?thesis by (intro passed) (simp_all add: iteration_def)
next
  case (Some e)
  show ?thesis
  proof (cases "is_Exception e")
    case False
    with tb Some show ?thesis by (intro escaped [of e]) (simp_all add: iteration_def)
  next
    case True
    show ?thesis
    proof (cases "recover a")
      case True
      with tb Some \<open>is_Exception e\<close> show ?thesis
        by (intro absorbed [of e]) (simp_all add: iteration_def Let_def)
    next
      case False
      with tb Some \<open>is_Exception e\<close> show ?thesis
        by (intro reraised [of e]) (simp_all add: iteration_def Let_def)
    qed
  qed
qed

lemma iteration_summary:
  assumes it: "iteration X a c t w = (r, t', w')"
  shows "\<exists>new. trace w' = trace w @ new
     \<and> attempted new = [c] \<and> shell_commands new = []
     \<and> count_lines ''Job completed: '' new = jobs_completed t' - jobs_completed t
     \<and> count_lines ''Error running job: '' new = jobs_failed t' - jobs_failed t
     \<and> jobs_completed t' - jobs_completed t \<in> {0, 1}
     \<and> jobs_failed t' - jobs_failed t \<in> {0, 1}
     \<and> (r = None \<longrightarrow> 1 \<le> (jobs_completed t' - jobs_completed t) + (jobs_failed t' - jobs_failed t))
     \<and> (\<not> recover a \<and> r = None \<longrightarrow> jobs_failed t' = jobs_failed t)
     \<and> (\<forall>e. recover a \<and> r = Some e \<longrightarrow> \<not> is_Exception e)"
proof -
  obtain q t1 w1 where tb: "try_block X a c t w = (q, t1, w1)"
    by (cases "try_block X a c t w")
  from try_block_summary [OF tb] obtain n1 where
    n1: "trace w1 = trace w @ Print (''Running job: '' @ c) # GetJob c (name a) # n1"
     "attempted n1 = []" "shell_commands n1 = []"
     "count_lines ''Error running job: '' n1 = 0"
     "count_lines ''Job completed: '' n1 = jobs_completed t1 - jobs_completed t"
     "jobs_failed t1 = jobs_failed t"
     "jobs_completed t1 = jobs_completed t \<or> jobs_completed t1 = jobs_completed t + 1"
     "q = None \<longrightarrow> jobs_completed t1 = jobs_completed t + 1"
    by blast
  let ?n = "Print (''Running job: '' @ c) # GetJob c (name a) # n1"
  have base: "attempted ?n = [c]" "shell_commands ?n = []"
    "count_lines ''Error running job: '' ?n = 0"
    "count_lines ''Job completed: '' ?n = jobs_completed t1 - jobs_completed t"
    using n1(2-5) by (simp_all add: count_lines_def)
  from tb show ?thesis
  proof (cases rule: iteration_cases)
    case passed
    with it have "t' = t1" "w' = w1" "r = None" by simp_all
    then show ?thesis
      using n1 base passed(1) by (intro exI [of _ ?n]) auto
  next
    case (escaped e)
    with it have "t' = t1" "w' = w1" "r = Some e" by simp_all
    then show ?thesis
      using n1 base escaped(2) by (intro exI [of _ ?n]) auto
  next
    case (absorbed e)
    with it have e: "t' = t1\<lparr>jobs_failed := jobs_failed t1 + 1\<rparr>"
      "w' = print (''Error running job: '' @ exn_str e) w1" "r = None" by simp_all
    let ?m = "?n @ [Print (''Error running job: '' @ exn_str e)]"
    have "trace w' = trace w @ ?m" using e(2) n1(1) by (simp add: print_def)
    moreover have "attempted ?m = [c]" "shell_commands ?m = []"
      "count_lines ''Error running job: '' ?m = 1"
      "count_lines ''Job completed: '' ?m = jobs_completed t1 - jobs_completed t"
      using base
      by (simp_all only: attempted_append shell_commands_append count_lines_append)
         (simp_all add: count_lines_def)
    ultimately show ?thesis
      using e n1(6,7) absorbed(3) by (intro exI [of _ ?m]) auto
  next
    case (reraised e)
    with it have e: "t' = t1\<lparr>jobs_failed := jobs_failed t1 + 1\<rparr>"
      "w' = print_end_message (jobs_completed t1) (jobs_failed t1 + 1)
           (print (''Error running job: '' @ exn_str e) w1)" "r = Some e" by simp_all
    obtain msg where msg: "trace w' = trace (print (''Error running job: '' @ exn_str e) w1) @ msg"
      "attempted msg = []" "shell_commands msg = []"
      "count_lines ''Error running job: '' msg = 0" "count_lines ''Job completed: '' msg = 0"
      unfolding e(2) using print_end_message_quiet by blast
    let ?m = "?n @ [Print (''Error running job: '' @ exn_str e)] @ msg"
    have "trace w' = trace w @ ?m" using msg(1) n1(1) by (simp add: print_def)
    moreover have "attempted ?m = [c]" "shell_commands ?m = []"
      "count_lines ''Error running job: '' ?m = 1"
      "count_lines ''Job completed: '' ?m = jobs_completed t1 - jobs_completed t"
      using base msg(2-5)
      by (simp_all only: attempted_append shell_commands_append count_lines_append)
         (simp_all add: count_lines_def)
    ultimately show ?thesis
      using e n1(6,7) reraised(3) by (intro exI [of _ ?m]) auto
  qed
qed

section \<open>The loop\<close>


lemma for_loop_summary:
  "for_loop X a cs t w = (r, t', w') \<Longrightarrow>
   \<exists>new. trace w' = trace w @ new
     \<and> shell_commands new = []
     \<and> count_lines ''Job completed: '' new = jobs_completed t' - jobs_completed t
     \<and> count_lines ''Error running job: '' new = jobs_failed t' - jobs_failed t
     \<and> 0 \<le> jobs_completed t' - jobs_completed t
     \<and> jobs_completed t' - jobs_completed t \<le> int (length cs)
     \<and> 0 \<le> jobs_failed t' - jobs_failed t
     \<and> jobs_failed t' - jobs_failed t \<le> int (length cs)
     \<and> prefix (attempted new) cs
     \<and> (r = None \<longrightarrow> attempted new = cs
           \<and> int (length cs) \<le> (jobs_completed t' - jobs_completed t) + (jobs_failed t' - jobs_failed t))
     \<and> (\<not> recover a \<and> r = None \<longrightarrow> jobs_failed t' = jobs_failed t)
     \<and> (\<forall>e. recover a \<and> r = Some e \<longrightarrow> \<not> is_Exception e)"
proof (induction cs arbitrary: t w)
  case Nil
  then show ?case by (intro exI [of _ "[]"]) (simp add: count_lines_def)
next
  case (Cons c cs)
  obtain q t1 w1 where it: "iteration X a c t w = (q, t1, w1)"
    by (cases "iteration X a c t w")
  from iteration_summary [OF it] obtain n1 where n1: "trace w1 = trace w @ n1"
    "attempted n1 = [c]" "shell_commands n1 = []"
    "count_lines ''Job completed: '' n1 = jobs_completed t1 - jobs_completed t"
    "count_lines ''Error running job: '' n1 = jobs_failed t1 - jobs_failed t"
    "jobs_completed t1 - jobs_completed t \<in> {0, 1}"
    "jobs_failed t1 - jobs_failed t \<in> {0, 1}"
    "q = None \<longrightarrow> 1 \<le> (jobs_completed t1 - jobs_completed t) + (jobs_failed t1 - jobs_failed t)"
    "\<not> recover a \<and> q = None \<longrightarrow> jobs_failed t1 = jobs_failed t"
    "\<forall>e. recover a \<and> q = Some e \<longrightarrow> \<not> is_Exception e"
    by blast
  show ?case
  proof (cases q)
    case (Some e)
    with it Cons.prems have "r = Some e" "t' = t1" "w' = w1" by simp_all
    then show ?thesis
      using n1 Some by (intro exI [of _ n1]) auto
  next
    case None
    with it Cons.prems have rest: "for_loop X a cs t1 w1 = (r, t', w')" by simp
    from Cons.IH [OF rest] obtain n2 where n2: "trace w' = trace w1 @ n2"
      "shell_commands n2 = []"
      "count_lines ''Job completed: '' n2 = jobs_completed t' - jobs_completed t1"
      "count_lines ''Error running job: '' n2 = jobs_failed t' - jobs_failed t1"
      "0 \<le> jobs_completed t' - jobs_completed t1"
      "jobs_completed t' - jobs_completed t1 \<le> int (length cs)"
      "0 \<le> jobs_failed t' - jobs_failed t1"
      "jobs_failed t' - jobs_failed t1 \<le> int (length cs)"
      "prefix (attempted n2) cs"
      "r = None \<longrightarrow> attempted n2 = cs
           \<and> int (length cs) \<le> (jobs_completed t' - jobs_completed t1) + (jobs_failed t' - jobs_failed t1)"
      "\<not> recover a \<and> r = None \<longrightarrow> jobs_failed t' = jobs_failed t1"
      "\<forall>e. recover a \<and> r = Some e \<longrightarrow> \<not> is_Exception e"
      by blast
    have "trace w' = trace w @ (n1 @ n2)" using n1(1) n2(1) by simp
    moreover have "shell_commands (n1 @ n2) = []" "attempted (n1 @ n2) = c # attempted n2"
      using n1 n2 by (simp_all add: shell_commands_append attempted_append)
    moreover have "count_lines ''Job completed: '' (n1 @ n2) = jobs_completed t' - jobs_completed t"
      "count_lines ''Error running job: '' (n1 @ n2) = jobs_failed t' - jobs_failed t"
      using n1(4,5) n2(3,4) by (simp_all add: count_lines_append)
    ultimately show ?thesis
      using n1(6-9) n2(5-12) None
      by (intro exI [of _ "n1 @ n2"]) auto
  qed
qed




lemma all_succeed_for_loop:
  "all_succeed X a cs t w \<Longrightarrow>
   \<exists>w'. for_loop X a cs t w =
     (None, t\<lparr>jobs_completed := jobs_completed t + int (length cs)\<rparr>, w')"
proof (induction cs arbitrary: t w)
  case Nil
  then show ?case by simp
next
  case (Cons c cs)
  obtain q t1 w1 where tb: "try_block X a c t w = (q, t1, w1)"
    by (cases "try_block X a c t w")
  with Cons.prems have q: "q = None" and rest: "all_succeed X a cs t1 w1"
    by (auto split: option.splits)
  from try_block_summary [OF tb] q have t1: "jobs_completed t1 = jobs_completed t + 1"
    "jobs_failed t1 = jobs_failed t" by auto
  then have t1': "t1 = t\<lparr>jobs_completed := jobs_completed t + 1\<rparr>" by simp
  have it: "iteration X a c t w = (None, t1, w1)"
    using tb q by (simp add: iteration_def)
  from Cons.IH [OF rest] obtain w' where
    "for_loop X a cs t1 w1 = (None, t1\<lparr>jobs_completed := jobs_completed t1 + int (length cs)\<rparr>, w')"
    by blast
  then show ?case using it t1' by (intro exI [of _ w']) simp
qed


section \<open>The driver as a whole\<close>

lemma started_trace: "trace (started a c w) = trace w @ [Print (''Running job: '' @ c), GetJob c (name a)]"
  by (simp add: started_def print_def)

lemma started_system: "system (started a c w) = system w"
  by (simp add: started_def print_def)

lemma announce_trace:
  "trace (announce a w) = trace w @ [Print (''Running '' @ str_int (int (length (config_file_list a))) @ '' job''
            @ (if length (config_file_list a) = 1 then [] else ''s''))]"
  by (simp add: announce_def print_def)

lemma announce_quiet:
  "\<exists>l. trace (announce a w) = trace w @ [l] \<and> attempted [l] = [] \<and> shell_commands [l] = []
     \<and> count_lines ''Job completed: '' [l] = 0 \<and> count_lines ''Error running job: '' [l] = 0"
  unfolding announce_trace by (rule exI, rule conjI, rule refl) (simp add: count_lines_def)


lemma main_nonempty:
  "config_file_list a \<noteq> [] \<Longrightarrow>
   main X a w =
     (case for_loop X a (config_file_list a) \<lparr>jobs_completed = 0, jobs_failed = 0\<rparr> (announce a w) of
        (Some e, t, w) \<Rightarrow> (Some e, t, w)
      | (None, t, w) \<Rightarrow> (case auto_shutdown X a w of (r, w) \<Rightarrow> (r, t, w)))"
  by (simp add: main_def Let_def)



text \<open>
  Claim C10.  When every pass gets through its \<open>try\<close> (resolution, run, cleanup and,
  where the bucket is set, upload and clearing), the driver ends with the completed
  counter at the number of identifiers and the failed counter at 0.
\<close>

theorem all_succeed_counts:
  assumes "all_succeed X a (config_file_list a) \<lparr>jobs_completed = 0, jobs_failed = 0\<rparr> (announce a w)"
  shows "\<exists>r w'. main X a w =
     (r, \<lparr>jobs_completed = int (length (config_file_list a)), jobs_failed = 0\<rparr>, w')"
proof (cases "config_file_list a = []")
  case True
  then show ?thesis by (simp add: main_def)
next
  case False
  from all_succeed_for_loop [OF assms] obtain w1 where
    lp: "for_loop X a (config_file_list a) \<lparr>jobs_completed = 0, jobs_failed = 0\<rparr> (announce a w) =
      (None, \<lparr>jobs_completed = int (length (config_file_list a)), jobs_failed = 0\<rparr>, w1)"
    by auto
  show ?thesis
    using False lp by (simp add: main_nonempty split: prod.splits)
qed

text \<open>
  Claim C9.  With \<open>--shutdown\<close> given and \<open>RUNPOD_POD_ID\<close> absent when the loop ends,
  the driver ends as the loop did: the shutdown part raises nothing, the run issues no
  shell command at all, and after a loop that was not left by an exception the last
  thing done is printing the warning.
\<close>

theorem shutdown_without_pod_id:
  assumes sd: "shutdown a" and ne: "config_file_list a \<noteq> []"
    and lp: "for_loop X a (config_file_list a) \<lparr>jobs_completed = 0, jobs_failed = 0\<rparr> (announce a w) = (r, t1, w1)"
    and pod: "environ (system w1) ''RUNPOD_POD_ID'' = None"
  shows "\<exists>w'. main X a w = (r, t1, w')
     \<and> shell_commands (trace w') = shell_commands (trace w)
     \<and> (r = None \<longrightarrow> w' = print
           ''Automatic shut down was configured, but could not get environment $RUNPOD_POD_ID'' w1)"
proof -
  from for_loop_summary [OF lp] obtain n1 where n1: "trace w1 = trace (announce a w) @ n1"
    "shell_commands n1 = []" by blast
  obtain l where l: "trace (announce a w) = trace w @ [l]" "shell_commands [l] = []"
    using announce_quiet by blast
  have s1: "shell_commands (trace w1) = shell_commands (trace w)"
    unfolding n1(1) l(1) using n1(2) l(2) by (simp only: shell_commands_append append_Nil2)
  show ?thesis
  proof (cases r)
    case None
    have "auto_shutdown X a w1 = (None, print
           ''Automatic shut down was configured, but could not get environment $RUNPOD_POD_ID'' w1)"
      using sd pod by (simp add: auto_shutdown_def)
    then show ?thesis
      using None lp ne s1 by (simp add: main_nonempty) (simp add: print_def shell_commands_append)
  next
    case (Some e)
    then show ?thesis using lp ne s1 by (simp add: main_nonempty)
  qed
qed






lemma ex_all_succeed:
  "all_succeed X_ex a_ok (config_file_list a_ok) \<lparr>jobs_completed = 0, jobs_failed = 0\<rparr> (announce a_ok w_ex)"
  by code_simp

theorem all_succeed_counts_witness:
  "all_succeed X_ex a_ok (config_file_list a_ok) \<lparr>jobs_completed = 0, jobs_failed = 0\<rparr> (announce a_ok w_ex)
   \<and> (\<exists>r w'. main X_ex a_ok w_ex = (r, \<lparr>jobs_completed = 2, jobs_failed = 0\<rparr>, w'))"
  using all_succeed_counts [OF ex_all_succeed] ex_all_succeed
  by (simp add: a_ok_def a_ex_def)

lemma ex_ok_loop:
  "fst (for_loop X_ex a_ok (config_file_list a_ok) \<lparr>jobs_completed = 0, jobs_failed = 0\<rparr> (announce a_ok w_ex)) = None"
  "environ (system (snd (snd (for_loop X_ex a_ok (config_file_list a_ok)
       \<lparr>jobs_completed = 0, jobs_failed = 0\<rparr> (announce a_ok w_ex))))) ''RUNPOD_POD_ID'' = None"
  by code_simp+

theorem shutdown_without_pod_id_witness:
  "shutdown a_ok \<and> config_file_list a_ok \<noteq> [] \<and>
   (\<exists>t w'. main X_ex a_ok w_ex = (None, t, w') \<and> shell_commands (trace w') = []
      \<and> last (trace w') = Print ''Automatic shut down was configured, but could not get environment $RUNPOD_POD_ID'')"
proof -
  let ?l = "for_loop X_ex a_ok (config_file_list a_ok) \<lparr>jobs_completed = 0, jobs_failed = 0\<rparr> (announce a_ok w_ex)"
  have sd: "shutdown a_ok" and ne: "config_file_list a_ok \<noteq> []" by (simp_all add: a_ok_def a_ex_def)
  have lp: "?l = (None, fst (snd ?l), snd (snd ?l))" using ex_ok_loop(1) by (metis prod.collapse)
  from shutdown_without_pod_id [OF sd ne lp ex_ok_loop(2)]
  show ?thesis using sd ne by (auto simp: w_ex_def print_def)
qed

text \<open>
  Claim C6.  A run of one job that succeeds, bucket unset: the driver returns normally
  with one job completed, and its whole output is the five events below.  The summary
  block of \<open>print_end_message\<close> is not among them; \<open>main_all_succeed_no_summary\<close>
  at the end of this theory shows the same for every run in which each job succeeds.
\<close>

theorem no_summary_after_success:
  "fst (main X_ex a_one w_nobucket) = None \<and>
   fst (snd (main X_ex a_one w_nobucket)) = \<lparr>jobs_completed = 1, jobs_failed = 0\<rparr> \<and>
   trace (snd (snd (main X_ex a_one w_nobucket))) =
     [Print ''Running 1 job'', Print ''Running job: c1'', GetJob ''c1'' None,
      Print ''Job completed: c1'', Print ''Output directory: cfg'']"
  by code_simp

section \<open>Failures after a job has completed\<close>

lemma after_job_raised:
  fixes X a c j w b e
  defines "W \<equiv> completed_log c j w"
  assumes bucket: "environ (system w) ''SAVE_CHECKPOINT_BUCKET_NAME'' = Some b"
    and post: "fst (upload_to_s3 X (checkpoint_dir j) b ''.safetensors'' W) = Some e
       \<or> (fst (upload_to_s3 X (checkpoint_dir j) b ''.safetensors'' W) = None
          \<and> fst (clear_target_folder (target_folder a)
                 (print (''Clearing target folder: '' @ checkpoint_dir j)
                    (snd (upload_to_s3 X (checkpoint_dir j) b ''.safetensors'' W)))) = Some e)"
  shows "fst (after_job X a c j w) = Some e"
proof (cases rule: after_job_cases [where X = X and a = a and c = c and j = j and w = w])
  case unset
  with bucket show ?thesis by simp
next
  case (upload_raised b' e' w3)
  with bucket have "b' = b" by simp
  with upload_raised(2) post show ?thesis
    unfolding upload_raised(3) W_def completed_log_def checkpoint_dir_def by simp
next
  case (uploaded b' w3)
  with bucket have "b' = b" by simp
  with uploaded(2) post show ?thesis
    unfolding uploaded(3) W_def completed_log_def checkpoint_dir_def by simp
qed

lemma try_block_completed:
  assumes "get_job X c (name a) (system w) = (Inr j, s1)"
    and "run j s1 = (None, s2)" and "cleanup j s2 = (None, s3)"
  shows "try_block X a c t w =
     (fst (after_job X a c j ((started a c w)\<lparr>system := s3\<rparr>)),
      t\<lparr>jobs_completed := jobs_completed t + 1\<rparr>,
      snd (after_job X a c j ((started a c w)\<lparr>system := s3\<rparr>)))"
proof (cases rule: try_block_cases [where X = X and a = a and c = c and t = t and w = w])
  case (completed j' s1' s2' s3')
  with assms show ?thesis by (simp add: started_def)
qed (use assms in simp_all)

lemma iteration_after_job_raised:
  assumes "get_job X c (name a) (system w) = (Inr j, s1)"
    and "run j s1 = (None, s2)" and "cleanup j s2 = (None, s3)"
    and aj: "fst (after_job X a c j ((started a c w)\<lparr>system := s3\<rparr>)) = Some e"
    and ex: "is_Exception e"
  shows "iteration X a c t w =
     (if recover a then None else Some e,
      t\<lparr>jobs_completed := jobs_completed t + 1, jobs_failed := jobs_failed t + 1\<rparr>,
      (if recover a then (\<lambda>w. w) else print_end_message (jobs_completed t + 1) (jobs_failed t + 1))
        (print (''Error running job: '' @ exn_str e)
           (snd (after_job X a c j ((started a c w)\<lparr>system := s3\<rparr>)))))"
  using try_block_completed [OF assms(1-3), of t] aj ex
  by (simp add: iteration_def Let_def)

text \<open>
  Claim C4.  Resolution, run and cleanup of \<open>c\<close> succeed, the bucket is set, and then
  the upload raises, or the upload succeeds and the clearing raises, an \<open>Exception\<close>.
  Then the single pass over \<open>c\<close> adds one to the completed counter and one to the failed
  counter, and the two increments together exceed the number of identifiers processed.
\<close>

theorem both_counters_incremented:
  fixes X a c j w b e s3
  defines "W \<equiv> completed_log c j ((started a c w)\<lparr>system := s3\<rparr>)"
  assumes "get_job X c (name a) (system w) = (Inr j, s1)"
    and "run j s1 = (None, s2)" and "cleanup j s2 = (None, s3)"
    and bucket: "environ s3 ''SAVE_CHECKPOINT_BUCKET_NAME'' = Some b"
    and post: "fst (upload_to_s3 X (checkpoint_dir j) b ''.safetensors'' W) = Some e
       \<or> (fst (upload_to_s3 X (checkpoint_dir j) b ''.safetensors'' W) = None
          \<and> fst (clear_target_folder (target_folder a)
                 (print (''Clearing target folder: '' @ checkpoint_dir j)
                    (snd (upload_to_s3 X (checkpoint_dir j) b ''.safetensors'' W)))) = Some e)"
    and ex: "is_Exception e"
  shows "\<exists>r t' w'. for_loop X a [c] t w = (r, t', w')
     \<and> jobs_completed t' = jobs_completed t + 1
     \<and> jobs_failed t' = jobs_failed t + 1
     \<and> int (length [c]) < (jobs_completed t' - jobs_completed t) + (jobs_failed t' - jobs_failed t)"
proof -
  have env: "environ (system ((started a c w)\<lparr>system := s3\<rparr>)) ''SAVE_CHECKPOINT_BUCKET_NAME'' = Some b"
    using bucket by simp
  have aj: "fst (after_job X a c j ((started a c w)\<lparr>system := s3\<rparr>)) = Some e"
    using after_job_raised [OF env, of X j c e a] post unfolding W_def by simp
  show ?thesis
    using iteration_after_job_raised [OF assms(2-4) aj ex, of t]
    by (cases "recover a") simp_all
qed

text \<open>
  Claim C1, as amended.  An \<open>Exception\<close> raised by the upload or by the clearing after
  a job has succeeded is caught by the handler of the loop, like any failure of the job:
  it is logged as \<open>Error running job\<close> and counted as a failure.  With the recovery flag
  the loop goes on with the remaining identifiers; without it the summary is printed and
  the exception leaves the loop.
\<close>

theorem upload_and_clear_errors_handled:
  fixes X a c j w b e s3
  defines "W \<equiv> completed_log c j ((started a c w)\<lparr>system := s3\<rparr>)"
  assumes "get_job X c (name a) (system w) = (Inr j, s1)"
    and "run j s1 = (None, s2)" and "cleanup j s2 = (None, s3)"
    and bucket: "environ s3 ''SAVE_CHECKPOINT_BUCKET_NAME'' = Some b"
    and post: "fst (upload_to_s3 X (checkpoint_dir j) b ''.safetensors'' W) = Some e
       \<or> (fst (upload_to_s3 X (checkpoint_dir j) b ''.safetensors'' W) = None
          \<and> fst (clear_target_folder (target_folder a)
                 (print (''Clearing target folder: '' @ checkpoint_dir j)
                    (snd (upload_to_s3 X (checkpoint_dir j) b ''.safetensors'' W)))) = Some e)"
    and ex: "is_Exception e"
  shows "\<exists>w4. for_loop X a (c # rest) t w =
     (if recover a
      then for_loop X a rest
             (t\<lparr>jobs_completed := jobs_completed t + 1, jobs_failed := jobs_failed t + 1\<rparr>)
             (print (''Error running job: '' @ exn_str e) w4)
      else (Some e,
            t\<lparr>jobs_completed := jobs_completed t + 1, jobs_failed := jobs_failed t + 1\<rparr>,
            print_end_message (jobs_completed t + 1) (jobs_failed t + 1)
              (print (''Error running job: '' @ exn_str e) w4)))"
proof -
  have env: "environ (system ((started a c w)\<lparr>system := s3\<rparr>)) ''SAVE_CHECKPOINT_BUCKET_NAME'' = Some b"
    using bucket by simp
  have aj: "fst (after_job X a c j ((started a c w)\<lparr>system := s3\<rparr>)) = Some e"
    using after_job_raised [OF env, of X j c e a] post unfolding W_def by simp
  show ?thesis
    using iteration_after_job_raised [OF assms(2-4) aj ex, of t]
    by (intro exI [of _ "snd (after_job X a c j ((started a c w)\<lparr>system := s3\<rparr>))"]) simp
qed

lemma ex_lost_job:
  "get_job X_ex ''c1'' (name a_lost) (system w_ex) = (Inr job_ex, system w_ex)"
  "run job_ex (system w_ex) = (None, system w_ex)"
  "cleanup job_ex (system w_ex) = (None, system w_ex)"
  "environ (system w_ex) ''SAVE_CHECKPOINT_BUCKET_NAME'' = Some ''bkt''"
  by (simp_all add: X_ex_def job_ex_def w_ex_def)

lemma ex_lost_post:
  "fst (upload_to_s3 X_ex (checkpoint_dir job_ex) ''bkt'' ''.safetensors''
         (completed_log ''c1'' job_ex ((started a_lost ''c1'' w_ex)\<lparr>system := system w_ex\<rparr>))) = None
   \<and> fst (clear_target_folder (target_folder a_lost)
           (print (''Clearing target folder: '' @ checkpoint_dir job_ex)
              (snd (upload_to_s3 X_ex (checkpoint_dir job_ex) ''bkt'' ''.safetensors''
                (completed_log ''c1'' job_ex ((started a_lost ''c1'' w_ex)\<lparr>system := system w_ex\<rparr>))))))
       = Some (Exception ''FileNotFoundError: /nowhere'')"
  by code_simp

theorem both_counters_incremented_witness:
  "\<exists>r t' w'. for_loop X_ex a_lost [''c1''] \<lparr>jobs_completed = 0, jobs_failed = 0\<rparr> w_ex = (r, t', w')
     \<and> jobs_completed t' = 1 \<and> jobs_failed t' = 1
     \<and> int (length [''c1'']) < jobs_completed t' + jobs_failed t'"
proof -
  have ex: "is_Exception (Exception ''FileNotFoundError: /nowhere'')" by simp
  from both_counters_incremented [OF ex_lost_job disjI2 [OF ex_lost_post] ex,
      of "\<lparr>jobs_completed = 0, jobs_failed = 0\<rparr>"]
  show ?thesis by simp
qed

theorem upload_and_clear_errors_handled_witness:
  "recover a_lost \<and>
   (\<exists>w'. for_loop X_ex a_lost [''c1''] \<lparr>jobs_completed = 0, jobs_failed = 0\<rparr> w_ex =
      (None, \<lparr>jobs_completed = 1, jobs_failed = 1\<rparr>, w'))"
proof -
  have r: "recover a_lost" by (simp add: a_lost_def)
  have ex: "is_Exception (Exception ''FileNotFoundError: /nowhere'')" by simp
  from upload_and_clear_errors_handled [OF ex_lost_job disjI2 [OF ex_lost_post] ex,
      of "[]" "\<lparr>jobs_completed = 0, jobs_failed = 0\<rparr>"]
  obtain w4 where "for_loop X_ex a_lost [''c1''] \<lparr>jobs_completed = 0, jobs_failed = 0\<rparr> w_ex =
      for_loop X_ex a_lost []
        (\<lparr>jobs_completed = 0, jobs_failed = 0\<rparr>\<lparr>jobs_completed := 0 + 1, jobs_failed := 0 + 1\<rparr>)
        (print (''Error running job: '' @ exn_str (Exception ''FileNotFoundError: /nowhere'')) w4)"
    using r by auto
  then show ?thesis using r by simp
qed

text \<open>
  Claim C1 as stated fails: with the recovery flag, a clearing that raises (the target
  folder does not exist) is absorbed, and the driver returns normally with one job
  completed and one failed.
\<close>

theorem clearing_error_absorbed_counterexample:
  "fst (clear_target_folder (target_folder a_lost) w_ex) = Some (Exception ''FileNotFoundError: /nowhere'')
   \<and> fst (main X_ex a_lost w_ex) = None
   \<and> fst (snd (main X_ex a_lost w_ex)) = \<lparr>jobs_completed = 1, jobs_failed = 1\<rparr>
   \<and> trace (snd (snd (main X_ex a_lost w_ex))) =
       [Print ''Running 1 job'', Print ''Running job: c1'', GetJob ''c1'' None,
        Print ''Job completed: c1'', Print ''Output directory: cfg'',
        Print ''Uploading 1 files to bkt/u1/j1/lora_checkpoints'',
        Print ''Uploading /output/run1/m.safetensors to bkt/u1/j1/lora_checkpoints'',
        Upload ''/output/run1/m.safetensors'' ''bkt'' ''u1/j1/lora_checkpoints/m.safetensors'',
        Print ''Clearing target folder: /output/run1'',
        Print ''Error running job: FileNotFoundError: /nowhere'']"
  by code_simp




section \<open>Which folder is cleared\<close>



















section \<open>Which files are uploaded\<close>














section \<open>The summary after a run without failures\<close>

lemma all_succeed_no_summary:
  "all_succeed X a cs t w \<Longrightarrow>
   \<exists>w' new. for_loop X a cs t w = (None, t\<lparr>jobs_completed := jobs_completed t + int (length cs)\<rparr>, w')
     \<and> trace w' = trace w @ new \<and> Print ''Result:'' \<notin> set new"
proof (induction cs arbitrary: t w)
  case Nil
  then show ?case by simp
next
  case (Cons c cs)
  obtain q t1 w1 where tb: "try_block X a c t w = (q, t1, w1)"
    by (cases "try_block X a c t w")
  with Cons.prems have q: "q = None" and rest: "all_succeed X a cs t1 w1"
    by (auto split: option.splits)
  from try_block_summary [OF tb] q obtain n1 where
    n1: "trace w1 = trace w @ Print (''Running job: '' @ c) # GetJob c (name a) # n1"
      "Print ''Result:'' \<notin> set n1"
    and t1: "jobs_completed t1 = jobs_completed t + 1" "jobs_failed t1 = jobs_failed t"
    by auto
  have t1': "t1 = t\<lparr>jobs_completed := jobs_completed t + 1\<rparr>" using t1 by simp
  have it: "iteration X a c t w = (None, t1, w1)"
    using tb q by (simp add: iteration_def)
  from Cons.IH [OF rest] obtain w' n2 where
    r: "for_loop X a cs t1 w1 = (None, t1\<lparr>jobs_completed := jobs_completed t1 + int (length cs)\<rparr>, w')"
      "trace w' = trace w1 @ n2" "Print ''Result:'' \<notin> set n2"
    by blast
  have "trace w' = trace w @ (Print (''Running job: '' @ c) # GetJob c (name a) # n1 @ n2)"
    using r(2) n1(1) by simp
  moreover have "Print ''Result:'' \<notin> set (Print (''Running job: '' @ c) # GetJob c (name a) # n1 @ n2)"
    using n1(2) r(3) by simp
  ultimately show ?case
    using it r(1) t1' by (intro exI [of _ w'] exI) auto
qed

lemma auto_shutdown_no_summary:
  "auto_shutdown X a w = (r, w') \<Longrightarrow> \<exists>new. trace w' = trace w @ new \<and> Print ''Result:'' \<notin> set new"
  unfolding auto_shutdown_def Let_def print_def
  by (auto split: if_splits option.splits exn.splits)

lemma main_all_succeed_no_summary:
  assumes "config_file_list a \<noteq> []"
    and "all_succeed X a (config_file_list a) \<lparr>jobs_completed = 0, jobs_failed = 0\<rparr> (announce a w)"
  shows "\<exists>r t' w' new. main X a w = (r, t', w') \<and> trace w' = trace w @ new
     \<and> Print ''Result:'' \<notin> set new"
proof -
  from all_succeed_no_summary [OF assms(2)] obtain w1 n1 t1 where
    lp: "for_loop X a (config_file_list a) \<lparr>jobs_completed = 0, jobs_failed = 0\<rparr> (announce a w) = (None, t1, w1)"
    and n1: "trace w1 = trace (announce a w) @ n1" "Print ''Result:'' \<notin> set n1"
    by blast
  obtain r w2 where sd: "auto_shutdown X a w1 = (r, w2)" by (cases "auto_shutdown X a w1")
  from auto_shutdown_no_summary [OF sd] obtain n2 where
    n2: "trace w2 = trace w1 @ n2" "Print ''Result:'' \<notin> set n2" by blast
  let ?l = "Print (''Running '' @ str_int (int (length (config_file_list a))) @ '' job''
            @ (if length (config_file_list a) = 1 then [] else ''s''))"
  have "main X a w = (r, t1, w2)"
    using assms(1) lp sd by (simp add: main_nonempty)
  moreover have "trace w2 = trace w @ (?l # n1 @ n2)"
    using n2(1) n1(1) by (simp add: announce_trace)
  moreover have "Print ''Result:'' \<notin> set (?l # n1 @ n2)"
    using n1(2) n2(2) by simp
  ultimately show ?thesis by blast
qed

end
